theory Spec2Isabelle
  imports Complex_Main "HOL-Library.AList"
begin

unbundle bit_operations_syntax

section \<open>Exceptions, operating-system queries and the order of effects\<close>

text \<open>
  The collector of \<^verbatim>\<open>read_data.py\<close> is a sequence of queries to the operating system
  (through \<^verbatim>\<open>platform\<close>, \<^verbatim>\<open>socket\<close>, \<^verbatim>\<open>uuid\<close>, \<^verbatim>\<open>psutil\<close> and \<^verbatim>\<open>datetime\<close>). Each query
  either returns a value or raises. An exception is a value of type \<open>exn\<close>: its class and
  the text that \<^verbatim>\<open>str(e)\<close> gives. The exceptions that these libraries raise derive from
  Python's \<^verbatim>\<open>Exception\<close>; \<^verbatim>\<open>KeyboardInterrupt\<close> and \<^verbatim>\<open>SystemExit\<close>, which can be raised
  inside any call (an interrupt during the one-second wait of \<^verbatim>\<open>psutil.cpu_percent\<close>, for
  one), derive from \<^verbatim>\<open>BaseException\<close> only: \<^verbatim>\<open>except Exception\<close> does not catch them, a
  bare \<^verbatim>\<open>except\<close> does.
\<close>

datatype exn_class =
  NoSuchProcess | AccessDenied | ZombieProcess | AttributeError | KeyError | TypeError
  | ValueError | OSError | KeyboardInterrupt | SystemExit

datatype exn = Exn exn_class string

fun derives_Exception :: "exn_class \<Rightarrow> bool" where
  "derives_Exception KeyboardInterrupt = False"
| "derives_Exception SystemExit = False"
| "derives_Exception c = True"

fun str_exn :: "exn \<Rightarrow> string" where
  "str_exn (Exn c msg) = msg"

fun class_of :: "exn \<Rightarrow> exn_class" where
  "class_of (Exn c msg) = c"

definition is_Exception :: "exn \<Rightarrow> bool" where
  \<comment> \<open>\<^verbatim>\<open>isinstance(e, Exception)\<close>\<close>
  "is_Exception e = derives_Exception (class_of e)"

text \<open>One event per call that leaves the program; the trace of a run is the list of its events.\<close>

datatype event =
  Ev_platform_system | Ev_platform_release | Ev_platform_version | Ev_platform_machine
  | Ev_platform_processor | Ev_platform_architecture
  | Ev_gethostname | Ev_gethostbyname string | Ev_getnode | Ev_net_if_addrs
  | Ev_cpu_count bool | Ev_cpu_freq | Ev_cpu_percent | Ev_virtual_memory
  | Ev_disk_partitions | Ev_disk_usage string
  | Ev_pids | Ev_process_iter
  | Ev_datetime_now

text \<open>
  A computation takes the trace so far and returns its outcome (\<open>Inl\<close> an exception that
  was raised, \<open>Inr\<close> the value returned) with the trace extended by the calls it made.
\<close>

type_synonym 'a io = "event list \<Rightarrow> (exn + 'a) \<times> event list"

definition return_io :: "'a \<Rightarrow> 'a io" where
  "return_io x = (\<lambda>tr. (Inr x, tr))"

definition raise_io :: "exn \<Rightarrow> 'a io" where
  "raise_io e = (\<lambda>tr. (Inl e, tr))"

definition bind_io :: "'a io \<Rightarrow> ('a \<Rightarrow> 'b io) \<Rightarrow> 'b io" where
  "bind_io m f = (\<lambda>tr. case m tr of (Inl e, tr') \<Rightarrow> (Inl e, tr') | (Inr x, tr') \<Rightarrow> f x tr')"

text \<open>
  \<^verbatim>\<open>try: m  except: h\<close>, the handler receiving the exception, whatever its class; a
  handler for some classes only raises the others again.
\<close>

definition try_io :: "'a io \<Rightarrow> (exn \<Rightarrow> 'a io) \<Rightarrow> 'a io" where
  "try_io m h = (\<lambda>tr. case m tr of (Inl e, tr') \<Rightarrow> h e tr' | (Inr x, tr') \<Rightarrow> (Inr x, tr'))"

text \<open>A call to the operating system: the event is recorded, the outcome is the system's.\<close>

definition os_call :: "event \<Rightarrow> exn + 'a \<Rightarrow> 'a io" where
  "os_call ev r = (\<lambda>tr. (r, tr @ [ev]))"

text \<open>An operation on a value already in memory that may raise: no event.\<close>

definition lift_io :: "exn + 'a \<Rightarrow> 'a io" where
  "lift_io r = (\<lambda>tr. (r, tr))"

section \<open>What the operating system reports\<close>

text \<open>The named tuples of \<^verbatim>\<open>psutil\<close> that the collector reads.\<close>

record sdiskpart =
  part_device :: string
  part_mountpoint :: string
  part_fstype :: string

record sdiskusage =
  usage_total :: int
  usage_used :: int
  usage_free :: int
  usage_percent :: real

record svmem =
  vm_total :: int
  vm_available :: int
  vm_used :: int
  vm_percent :: real

record scpufreq =
  cf_current :: real
  cf_min :: real
  cf_max :: real

record snicaddr =
  nic_family :: int
  nic_address :: string
  nic_netmask :: "string option"

text \<open>
  \<^verbatim>\<open>proc.info\<close> of a process yielded by \<^verbatim>\<open>psutil.process_iter(attrs)\<close>: a value that the
  process did not let \<^verbatim>\<open>psutil\<close> read is \<^verbatim>\<open>None\<close>.
\<close>

record proc_info =
  info_pid :: int
  info_name :: "string option"
  info_username :: "string option"
  info_memory_percent :: "real option"

text \<open>
  The answers of the operating system during one run. Reading an entry of an enumeration
  (an address of an interface, the \<^verbatim>\<open>info\<close> of a process) may itself raise.
  \<open>str_family\<close> is Python's \<^verbatim>\<open>str\<close> on an address family, \<open>clock\<close> the text of
  \<^verbatim>\<open>datetime.now().isoformat()\<close> at an instant, the instant being the number of calls made
  before, and \<open>strftime_iso\<close> is \<^verbatim>\<open>datetime.fromisoformat(s).strftime('%Y-%m-%d %H:%M:%S')\<close>,
  which raises on a text that is no ISO date.
\<close>

record os =
  platform_system :: "exn + string"
  platform_release :: "exn + string"
  platform_version :: "exn + string"
  platform_machine :: "exn + string"
  platform_processor :: "exn + string"
  platform_architecture :: "exn + (string \<times> string)"
  sys_version :: string
  gethostname :: "exn + string"
  gethostbyname :: "string \<Rightarrow> exn + string"
  getnode :: "exn + int"
  net_if_addrs :: "exn + (string \<times> (exn + snicaddr) list) list"
  str_family :: "int \<Rightarrow> string"
  cpu_count :: "bool \<Rightarrow> exn + int option"
  cpu_freq :: "exn + scpufreq option"
  cpu_percent :: "exn + real"
  virtual_memory :: "exn + svmem"
  disk_partitions :: "exn + sdiskpart list"
  disk_usage :: "string \<Rightarrow> exn + sdiskusage"
  pids :: "exn + int list"
  process_iter :: "exn + (exn + proc_info) list"
  clock :: "nat \<Rightarrow> string"
  strftime_iso :: "string \<Rightarrow> exn + string"

section \<open>The data model of \<^verbatim>\<open>read_data.py\<close>\<close>

record NetworkAddress =
  address :: string
  netmask :: "string option"
  family :: string

record CPUFrequency =
  freq_current :: real
  freq_min :: real
  freq_max :: real

text \<open>
  \<^verbatim>\<open>ProcessInfo\<close> declares \<^verbatim>\<open>name: str\<close>, \<^verbatim>\<open>username: str\<close> and
  \<^verbatim>\<open>memory_percent: float\<close>; the values stored are those of \<^verbatim>\<open>proc.info\<close>, which may be
  \<^verbatim>\<open>None\<close>.
\<close>

record ProcessInfo =
  pid :: int
  name :: "string option"
  username :: "string option"
  memory_percent :: "real option"

record DiskInfo =
  mountpoint :: string
  filesystem :: string
  disk_total :: int
  disk_used :: int
  disk_free :: int
  disk_percent :: real

record PlatformData =
  system :: string
  release :: string
  version :: string
  machine :: string
  processor :: string
  architecture :: "string \<times> string"
  python_version :: string

record NetworkData =
  hostname :: string
  ip_address :: string
  mac_address :: string
  network_interfaces :: "(string \<times> NetworkAddress list) list"

record CPUData =
  physical_cores :: "int option"
  total_cores :: "int option"
  max_frequency :: "CPUFrequency option"
  current_usage :: real

record MemoryData =
  mem_total :: int
  mem_available :: int
  mem_used :: int
  mem_percent :: real

record HardwareData =
  cpu :: CPUData
  memory :: MemoryData
  disk :: "(string \<times> DiskInfo) list"

record ProcessData =
  total_processes :: int
  running_processes :: "ProcessInfo list"

record SystemData =
  timestamp :: string
  platform :: PlatformData
  network :: NetworkData
  hardware :: HardwareData
  process :: ProcessData

section \<open>The collectors\<close>

subsection \<open>\<^verbatim>\<open>get_disk_info\<close>\<close>

text \<open>
  A Python \<^verbatim>\<open>dict\<close> is an association list in insertion order; \<^verbatim>\<open>d[k] = v\<close> is
  \<open>AList.update\<close>, which replaces the value of a key that is present where it stands and
  appends a new key at the end.
\<close>

fun get_disk_info_loop ::
  "os \<Rightarrow> sdiskpart list \<Rightarrow> (string \<times> DiskInfo) list \<Rightarrow> (string \<times> DiskInfo) list io" where
  "get_disk_info_loop os [] disks = return_io disks"
| "get_disk_info_loop os (part # rest) disks =
     bind_io
       (try_io
          (bind_io (os_call (Ev_disk_usage (part_mountpoint part))
                      (disk_usage os (part_mountpoint part)))
             (\<lambda>usage. return_io (AList.update (part_device part)
                \<lparr>mountpoint = part_mountpoint part,
                 filesystem = part_fstype part,
                 disk_total = usage_total usage,
                 disk_used = usage_used usage,
                 disk_free = usage_free usage,
                 disk_percent = usage_percent usage\<rparr> disks)))
          (\<lambda>e. return_io disks))
       (\<lambda>disks'. get_disk_info_loop os rest disks')"

definition get_disk_info :: "os \<Rightarrow> (string \<times> DiskInfo) list io" where
  "get_disk_info os =
     bind_io (os_call Ev_disk_partitions (disk_partitions os))
       (\<lambda>partitions. get_disk_info_loop os partitions [])"

subsection \<open>\<^verbatim>\<open>get_network_interfaces\<close>\<close>

definition getitem :: "(string \<times> 'v) list \<Rightarrow> string \<Rightarrow> exn + 'v" where
  \<comment> \<open>\<^verbatim>\<open>d[k]\<close>: \<^verbatim>\<open>KeyError\<close> on a missing key, whose text is the key's \<^verbatim>\<open>repr\<close>.\<close>
  "getitem d k =
     (case map_of d k of
        None \<Rightarrow> Inl (Exn KeyError ([CHR 0x27] @ k @ [CHR 0x27]))
      | Some v \<Rightarrow> Inr v)"

fun addresses_loop ::
  "os \<Rightarrow> string \<Rightarrow> (exn + snicaddr) list \<Rightarrow> (string \<times> NetworkAddress list) list
     \<Rightarrow> (string \<times> NetworkAddress list) list io" where
  "addresses_loop os interface [] interfaces = return_io interfaces"
| "addresses_loop os interface (addr # rest) interfaces =
     bind_io (lift_io addr)
       (\<lambda>a. bind_io (lift_io (getitem interfaces interface))
          (\<lambda>l. addresses_loop os interface rest
                 (AList.update interface
                    (l @ [\<lparr>address = nic_address a,
                           netmask = nic_netmask a,
                           family = str_family os (nic_family a)\<rparr>])
                    interfaces)))"

fun interfaces_loop ::
  "os \<Rightarrow> (string \<times> (exn + snicaddr) list) list \<Rightarrow> (string \<times> NetworkAddress list) list
     \<Rightarrow> (string \<times> NetworkAddress list) list io" where
  "interfaces_loop os [] interfaces = return_io interfaces"
| "interfaces_loop os ((interface, addresses) # rest) interfaces =
     bind_io (addresses_loop os interface addresses (AList.update interface [] interfaces))
       (\<lambda>interfaces'. interfaces_loop os rest interfaces')"

definition get_network_interfaces :: "os \<Rightarrow> (string \<times> NetworkAddress list) list io" where
  "get_network_interfaces os =
     bind_io (os_call Ev_net_if_addrs (net_if_addrs os))
       (\<lambda>items. interfaces_loop os items [])"

subsection \<open>\<^verbatim>\<open>get_cpu_frequency\<close>\<close>

text \<open>
  \<^verbatim>\<open>psutil.cpu_freq()\<close> returns \<^verbatim>\<open>None\<close> where the platform reports no frequency; reading
  \<^verbatim>\<open>.current\<close> of it raises \<^verbatim>\<open>AttributeError\<close>, which the bare \<^verbatim>\<open>except\<close> turns into
  \<^verbatim>\<open>None\<close> like any other exception.
\<close>

definition get_cpu_frequency :: "os \<Rightarrow> CPUFrequency option io" where
  "get_cpu_frequency os =
     try_io
       (bind_io (os_call Ev_cpu_freq (cpu_freq os))
          (\<lambda>cpu_freq.
             case cpu_freq of
               None \<Rightarrow> raise_io (Exn AttributeError ''NoneType object has no attribute current'')
             | Some f \<Rightarrow> return_io (Some \<lparr>freq_current = cf_current f,
                                            freq_min = cf_min f,
                                            freq_max = cf_max f\<rparr>)))
       (\<lambda>e. return_io None)"

subsection \<open>\<^verbatim>\<open>get_running_processes\<close>\<close>

fun running_processes_loop ::
  "(exn + proc_info) list \<Rightarrow> ProcessInfo list \<Rightarrow> ProcessInfo list io" where
  "running_processes_loop [] processes = return_io processes"
| "running_processes_loop (proc # rest) processes =
     bind_io
       (try_io
          (bind_io (lift_io proc)
             (\<lambda>info. return_io (processes @
                [\<lparr>pid = info_pid info,
                  name = info_name info,
                  username = info_username info,
                  memory_percent = info_memory_percent info\<rparr>])))
          (\<lambda>e. if class_of e = NoSuchProcess \<or> class_of e = AccessDenied
                    \<or> class_of e = ZombieProcess
                 then return_io processes else raise_io e))
       (\<lambda>processes'. running_processes_loop rest processes')"

definition get_running_processes :: "os \<Rightarrow> ProcessInfo list io" where
  "get_running_processes os =
     bind_io (os_call Ev_process_iter (process_iter os))
       (\<lambda>procs. running_processes_loop procs [])"

subsection \<open>The MAC address\<close>

definition hex_digit :: "nat \<Rightarrow> char" where
  "hex_digit d = ''0123456789abcdef'' ! d"

fun hex_of_nat :: "nat \<Rightarrow> string" where
  "hex_of_nat n = (if n < 16 then [hex_digit n] else hex_of_nat (n div 16) @ [hex_digit (n mod 16)])"

declare hex_of_nat.simps [simp del]

definition zfill :: "nat \<Rightarrow> string \<Rightarrow> string" where
  "zfill w s = replicate (w - length s) (CHR ''0'') @ s"

definition format_02x :: "int \<Rightarrow> string" where
  \<comment> \<open>\<^verbatim>\<open>'{:02x}'.format(v)\<close>: lower-case hex, zero-padded to width 2, the sign counted.\<close>
  "format_02x v =
     (if v < 0 then ''-'' @ zfill 1 (hex_of_nat (nat (- v))) else zfill 2 (hex_of_nat (nat v)))"

definition range_step :: "nat \<Rightarrow> nat \<Rightarrow> nat \<Rightarrow> nat list" where
  \<comment> \<open>\<^verbatim>\<open>range(start, stop, step)\<close> for a positive step.\<close>
  "range_step start stop step =
     map (\<lambda>i. start + i * step) [0 ..< (stop - start + step - 1) div step]"

fun join :: "string \<Rightarrow> string list \<Rightarrow> string" where
  "join sep [] = []"
| "join sep [s] = s"
| "join sep (s # t # ss) = s @ sep @ join sep (t # ss)"

text \<open>
  The list comprehension of \<^verbatim>\<open>collect\<close>: \<^verbatim>\<open>uuid.getnode()\<close> is called once for each
  element.
\<close>

fun mac_octets :: "os \<Rightarrow> nat list \<Rightarrow> string list io" where
  "mac_octets os [] = return_io []"
| "mac_octets os (elements # rest) =
     bind_io (os_call Ev_getnode (getnode os))
       (\<lambda>node. bind_io (mac_octets os rest)
          (\<lambda>octets. return_io (format_02x (drop_bit elements node AND 0xff) # octets)))"

definition mac_address_of :: "os \<Rightarrow> string io" where
  "mac_address_of os =
     bind_io (mac_octets os (range_step 0 (2 * 6) 2))
       (\<lambda>octets. return_io (join '':'' (rev octets)))"

subsection \<open>\<^verbatim>\<open>collect\<close>\<close>

definition datetime_now_isoformat :: "os \<Rightarrow> string io" where
  "datetime_now_isoformat os = (\<lambda>tr. (Inr (clock os (length tr)), tr @ [Ev_datetime_now]))"

definition collect :: "os \<Rightarrow> SystemData io" where
  "collect os =
     bind_io (os_call Ev_platform_system (platform_system os)) (\<lambda>p_system.
     bind_io (os_call Ev_platform_release (platform_release os)) (\<lambda>p_release.
     bind_io (os_call Ev_platform_version (platform_version os)) (\<lambda>p_version.
     bind_io (os_call Ev_platform_machine (platform_machine os)) (\<lambda>p_machine.
     bind_io (os_call Ev_platform_processor (platform_processor os)) (\<lambda>p_processor.
     bind_io (os_call Ev_platform_architecture (platform_architecture os)) (\<lambda>p_architecture.
     let platform_data = \<lparr>system = p_system, release = p_release, version = p_version,
           machine = p_machine, processor = p_processor, architecture = p_architecture,
           python_version = sys_version os\<rparr> in
     bind_io (os_call Ev_gethostname (gethostname os)) (\<lambda>n_hostname.
     bind_io (os_call Ev_gethostname (gethostname os)) (\<lambda>h.
     bind_io (os_call (Ev_gethostbyname h) (gethostbyname os h)) (\<lambda>n_ip_address.
     bind_io (mac_address_of os) (\<lambda>n_mac_address.
     bind_io (get_network_interfaces os) (\<lambda>n_interfaces.
     let network_data = \<lparr>hostname = n_hostname, ip_address = n_ip_address,
           mac_address = n_mac_address, network_interfaces = n_interfaces\<rparr> in
     bind_io (os_call (Ev_cpu_count False) (cpu_count os False)) (\<lambda>c_physical.
     bind_io (os_call (Ev_cpu_count True) (cpu_count os True)) (\<lambda>c_total.
     bind_io (get_cpu_frequency os) (\<lambda>c_frequency.
     bind_io (os_call Ev_cpu_percent (cpu_percent os)) (\<lambda>c_usage.
     let cpu_data = \<lparr>physical_cores = c_physical, total_cores = c_total,
           max_frequency = c_frequency, current_usage = c_usage\<rparr> in
     bind_io (os_call Ev_virtual_memory (virtual_memory os)) (\<lambda>mem.
     let memory_data = \<lparr>mem_total = vm_total mem, mem_available = vm_available mem,
           mem_used = vm_used mem, mem_percent = vm_percent mem\<rparr> in
     bind_io (get_disk_info os) (\<lambda>h_disk.
     let hardware_data = \<lparr>cpu = cpu_data, memory = memory_data, disk = h_disk\<rparr> in
     bind_io (os_call Ev_pids (pids os)) (\<lambda>all_pids.
     bind_io (get_running_processes os) (\<lambda>p_running.
     let process_data = \<lparr>total_processes = int (length all_pids),
           running_processes = p_running\<rparr> in
     bind_io (datetime_now_isoformat os) (\<lambda>now.
     return_io \<lparr>timestamp = now, platform = platform_data, network = network_data,
       hardware = hardware_data, process = process_data\<rparr>))))))))))))))))))))"

section \<open>The manager\<close>

text \<open>
  \<^verbatim>\<open>read_system_data\<close> returns a \<^verbatim>\<open>Dict[str, Any]\<close>: the values of such a dictionary are
  the type \<open>pyval\<close>, and \<^verbatim>\<open>dataclasses.asdict\<close> turns every dataclass into the dictionary
  of its fields, in the order of their declaration.
\<close>

datatype pyval =
  PNone | PStr string | PInt int | PFloat real
  | PList "pyval list" | PTuple "pyval list" | PDict "(string \<times> pyval) list"

type_synonym pydict = "(string \<times> pyval) list"

fun opt_val :: "('a \<Rightarrow> pyval) \<Rightarrow> 'a option \<Rightarrow> pyval" where
  "opt_val f None = PNone"
| "opt_val f (Some x) = f x"

definition val_of_NetworkAddress :: "NetworkAddress \<Rightarrow> pyval" where
  "val_of_NetworkAddress a =
     PDict [(''address'', PStr (address a)),
            (''netmask'', opt_val PStr (netmask a)),
            (''family'', PStr (family a))]"

definition val_of_CPUFrequency :: "CPUFrequency \<Rightarrow> pyval" where
  "val_of_CPUFrequency f =
     PDict [(''current'', PFloat (freq_current f)),
            (''min'', PFloat (freq_min f)),
            (''max'', PFloat (freq_max f))]"

definition val_of_ProcessInfo :: "ProcessInfo \<Rightarrow> pyval" where
  "val_of_ProcessInfo p =
     PDict [(''pid'', PInt (pid p)),
            (''name'', opt_val PStr (name p)),
            (''username'', opt_val PStr (username p)),
            (''memory_percent'', opt_val PFloat (memory_percent p))]"

definition val_of_DiskInfo :: "DiskInfo \<Rightarrow> pyval" where
  "val_of_DiskInfo d =
     PDict [(''mountpoint'', PStr (mountpoint d)),
            (''filesystem'', PStr (filesystem d)),
            (''total'', PInt (disk_total d)),
            (''used'', PInt (disk_used d)),
            (''free'', PInt (disk_free d)),
            (''percent'', PFloat (disk_percent d))]"

definition val_of_PlatformData :: "PlatformData \<Rightarrow> pyval" where
  "val_of_PlatformData p =
     PDict [(''system'', PStr (system p)),
            (''release'', PStr (release p)),
            (''version'', PStr (version p)),
            (''machine'', PStr (machine p)),
            (''processor'', PStr (processor p)),
            (''architecture'', PTuple [PStr (fst (architecture p)), PStr (snd (architecture p))]),
            (''python_version'', PStr (python_version p))]"

definition val_of_NetworkData :: "NetworkData \<Rightarrow> pyval" where
  "val_of_NetworkData n =
     PDict [(''hostname'', PStr (hostname n)),
            (''ip_address'', PStr (ip_address n)),
            (''mac_address'', PStr (mac_address n)),
            (''network_interfaces'',
               PDict (map (\<lambda>(k, l). (k, PList (map val_of_NetworkAddress l)))
                        (network_interfaces n)))]"

definition val_of_CPUData :: "CPUData \<Rightarrow> pyval" where
  "val_of_CPUData c =
     PDict [(''physical_cores'', opt_val PInt (physical_cores c)),
            (''total_cores'', opt_val PInt (total_cores c)),
            (''max_frequency'', opt_val val_of_CPUFrequency (max_frequency c)),
            (''current_usage'', PFloat (current_usage c))]"

definition val_of_MemoryData :: "MemoryData \<Rightarrow> pyval" where
  "val_of_MemoryData m =
     PDict [(''total'', PInt (mem_total m)),
            (''available'', PInt (mem_available m)),
            (''used'', PInt (mem_used m)),
            (''percent'', PFloat (mem_percent m))]"

definition val_of_HardwareData :: "HardwareData \<Rightarrow> pyval" where
  "val_of_HardwareData h =
     PDict [(''cpu'', val_of_CPUData (cpu h)),
            (''memory'', val_of_MemoryData (memory h)),
            (''disk'', PDict (map (\<lambda>(k, d). (k, val_of_DiskInfo d)) (disk h)))]"

definition val_of_ProcessData :: "ProcessData \<Rightarrow> pyval" where
  "val_of_ProcessData p =
     PDict [(''total_processes'', PInt (total_processes p)),
            (''running_processes'', PList (map val_of_ProcessInfo (running_processes p)))]"

definition asdict :: "SystemData \<Rightarrow> pydict" where
  "asdict s =
     [(''timestamp'', PStr (timestamp s)),
      (''platform'', val_of_PlatformData (platform s)),
      (''network'', val_of_NetworkData (network s)),
      (''hardware'', val_of_HardwareData (hardware s)),
      (''process'', val_of_ProcessData (process s))]"

definition read_system_data :: "os \<Rightarrow> pydict io" where
  "read_system_data os =
     try_io
       (bind_io (collect os) (\<lambda>system_data. return_io (asdict system_data)))
       (\<lambda>e. if is_Exception e
             then return_io [(''error'', PStr (''Failed to collect system data: '' @ str_exn e))]
             else raise_io e)"

section \<open>The refresh logic of \<^verbatim>\<open>display_data.py\<close>\<close>

text \<open>
  The state of \<^verbatim>\<open>SystemMonitorApp\<close>: the flag \<^verbatim>\<open>auto_refresh\<close>, the attribute \<^verbatim>\<open>data\<close>,
  and what the screen holds. Rendering is not part of this development: of a widget the
  state keeps the value it was last asked to show (the four information widgets are
  always given the same dictionary, and each catches its own rendering errors).
\<close>

record app =
  auto_refresh :: bool
  data :: "pydict option"
  info_widgets :: "pydict option"
  process_table :: "pyval option"
  timestamp_label :: string
  notifications :: "string list"
  loading_indicators :: nat
  interval_timer :: "real option"

definition initial_app :: app where
  "initial_app =
     \<lparr>auto_refresh = True, data = None, info_widgets = None, process_table = None,
      timestamp_label = ''Last Update: Never'', notifications = [],
      loading_indicators = 0, interval_timer = None\<rparr>"

definition subscript :: "pyval \<Rightarrow> string \<Rightarrow> exn + pyval" where
  "subscript v k =
     (case v of
        PDict d \<Rightarrow> getitem d k
      | _ \<Rightarrow> Inl (Exn TypeError ''object is not subscriptable''))"

definition format_timestamp :: "os \<Rightarrow> pyval \<Rightarrow> exn + string" where
  "format_timestamp os v =
     (case v of
        PStr s \<Rightarrow> strftime_iso os s
      | _ \<Rightarrow> Inl (Exn TypeError ''fromisoformat: argument must be str''))"

text \<open>
  The \<^verbatim>\<open>try\<close> block of \<^verbatim>\<open>refresh_data\<close>: the exception that ended it, if any, and the
  state reached (an assignment made before the exception stays made).
\<close>

definition refresh_try :: "os \<Rightarrow> app \<Rightarrow> event list \<Rightarrow> (exn option \<times> app) \<times> event list" where
  "refresh_try os a tr =
     (case read_system_data os tr of
        (Inl e, tr') \<Rightarrow> ((Some e, a), tr')
      | (Inr d, tr') \<Rightarrow>
          (let a1 = a\<lparr>data := Some d, info_widgets := Some d\<rparr> in
           case getitem d ''process'' of
             Inl e \<Rightarrow> ((Some e, a1), tr')
           | Inr p \<Rightarrow>
               (case subscript p ''running_processes'' of
                  Inl e \<Rightarrow> ((Some e, a1), tr')
                | Inr procs \<Rightarrow>
                    (let a2 = a1\<lparr>process_table := Some procs\<rparr> in
                     case getitem d ''timestamp'' of
                       Inl e \<Rightarrow> ((Some e, a2), tr')
                     | Inr ts \<Rightarrow>
                         (case format_timestamp os ts of
                            Inl e \<Rightarrow> ((Some e, a2), tr')
                          | Inr t \<Rightarrow>
                              ((None, a2\<lparr>timestamp_label := ''Last Update: '' @ t\<rparr>), tr'))))))"

text \<open>
  \<^verbatim>\<open>refresh_data\<close> is a coroutine without any \<^verbatim>\<open>await\<close> in its body, and
  \<^verbatim>\<open>read_system_data\<close> is an ordinary blocking call: once entered it runs to its end, so it
  is a function from the state before to the state after. Its first statement is the gate
  on \<^verbatim>\<open>auto_refresh\<close>; there is no flag for a collection under way. Its handler is
  \<^verbatim>\<open>except Exception\<close>: the result is the exception that leaves \<^verbatim>\<open>refresh_data\<close>, if any,
  with the state, on which the \<^verbatim>\<open>finally\<close> clause has removed the loading indicator.
\<close>

definition refresh_data ::
  "os \<Rightarrow> app \<Rightarrow> event list \<Rightarrow> (exn option \<times> app) \<times> event list" where
  "refresh_data os a tr =
     (if \<not> auto_refresh a then ((None, a), tr)
      else
        (case refresh_try os (a\<lparr>loading_indicators := loading_indicators a + 1\<rparr>) tr of
           ((None, a'), tr') \<Rightarrow>
             ((None, a'\<lparr>loading_indicators := loading_indicators a' - 1\<rparr>), tr')
         | ((Some e, a'), tr') \<Rightarrow>
             (if is_Exception e
              then ((None, a'\<lparr>notifications :=
                              notifications a' @ [''Error refreshing data: '' @ str_exn e],
                            loading_indicators := loading_indicators a' - 1\<rparr>), tr')
              else ((Some e, a'\<lparr>loading_indicators := loading_indicators a' - 1\<rparr>), tr'))))"

definition action_refresh ::
  "os \<Rightarrow> app \<Rightarrow> event list \<Rightarrow> (exn option \<times> app) \<times> event list" where
  "action_refresh os a tr = refresh_data os a tr"

definition action_toggle_refresh :: "app \<Rightarrow> app" where
  "action_toggle_refresh a =
     (let a' = a\<lparr>auto_refresh := \<not> auto_refresh a\<rparr> in
      a'\<lparr>notifications := notifications a' @
           [''Auto-refresh '' @ (if auto_refresh a' then ''enabled'' else ''disabled'')]\<rparr>)"

definition REFRESH_INTERVAL :: real where
  "REFRESH_INTERVAL = 5"

definition on_mount ::
  "os \<Rightarrow> app \<Rightarrow> event list \<Rightarrow> (exn option \<times> app) \<times> event list" where
  "on_mount os a tr =
     (case refresh_data os a tr of
        ((Some e, a'), tr') \<Rightarrow> ((Some e, a'), tr')
      | ((None, a'), tr') \<Rightarrow>
          ((None, a'\<lparr>interval_timer := Some REFRESH_INTERVAL,
              notifications := notifications a' @
                [''Press 'q' to quit, 'r' to refresh, 't' to toggle auto-refresh'']\<rparr>), tr'))"

section \<open>Hosts to run the definitions on\<close>

definition sda1 :: sdiskpart where
  "sda1 = \<lparr>part_device = ''/dev/sda1'', part_mountpoint = ''/'', part_fstype = ''ext4''\<rparr>"

definition sdb1 :: sdiskpart where
  "sdb1 = \<lparr>part_device = ''/dev/sdb1'', part_mountpoint = ''/data'', part_fstype = ''xfs''\<rparr>"

definition sda1_again :: sdiskpart where
  \<comment> \<open>the device of \<open>sda1\<close>, mounted a second time\<close>
  "sda1_again =
     \<lparr>part_device = ''/dev/sda1'', part_mountpoint = ''/data'', part_fstype = ''xfs''\<rparr>"

definition usage_root :: sdiskusage where
  "usage_root = \<lparr>usage_total = 100, usage_used = 55, usage_free = 45, usage_percent = 55\<rparr>"

definition usage_data :: sdiskusage where
  "usage_data = \<lparr>usage_total = 200, usage_used = 20, usage_free = 180, usage_percent = 10\<rparr>"

definition proc_init :: proc_info where
  "proc_init = \<lparr>info_pid = 1, info_name = Some ''init'', info_username = Some ''root'',
                 info_memory_percent = Some 0.5\<rparr>"

definition proc_sshd :: proc_info where
  \<comment> \<open>a process whose user name could not be read\<close>
  "proc_sshd = \<lparr>info_pid = 7, info_name = Some ''sshd'', info_username = None,
                 info_memory_percent = Some 0.25\<rparr>"

definition host :: os where
  "host =
     \<lparr>platform_system = Inr ''Linux'',
      platform_release = Inr ''6.1.0'',
      platform_version = Inr ''#1 SMP'',
      platform_machine = Inr ''x86_64'',
      platform_processor = Inr ''x86_64'',
      platform_architecture = Inr (''64bit'', ''ELF''),
      sys_version = ''3.11.2 (main)'',
      gethostname = Inr ''box'',
      gethostbyname = (\<lambda>h. if h = ''box'' then Inr ''127.0.1.1''
                             else Inl (Exn OSError ''Name or service not known'')),
      getnode = Inr 0x001122334455,
      net_if_addrs = Inr [(''lo'', [Inr \<lparr>nic_family = 2, nic_address = ''127.0.0.1'',
                                          nic_netmask = Some ''255.0.0.0''\<rparr>]),
                          (''eth0'', [Inr \<lparr>nic_family = 2, nic_address = ''10.0.0.7'',
                                            nic_netmask = Some ''255.255.255.0''\<rparr>,
                                      Inr \<lparr>nic_family = 17, nic_address = ''00:11:22:33:44:55'',
                                            nic_netmask = None\<rparr>])],
      str_family = (\<lambda>f. if f = 2 then ''AddressFamily.AF_INET''
                          else if f = 17 then ''AddressFamily.AF_PACKET'' else ''AddressFamily.?''),
      cpu_count = (\<lambda>logical. Inr (Some (if logical then 8 else 4))),
      cpu_freq = Inr (Some \<lparr>cf_current = 2400, cf_min = 800, cf_max = 3600\<rparr>),
      cpu_percent = Inr 42,
      virtual_memory = Inr \<lparr>vm_total = 16000000000, vm_available = 8000000000,
                             vm_used = 8000000000, vm_percent = 50\<rparr>,
      disk_partitions = Inr [sda1, sdb1],
      disk_usage = (\<lambda>mp. if mp = ''/'' then Inr usage_root
                          else if mp = ''/data'' then Inr usage_data
                          else Inl (Exn OSError ''No such file or directory'')),
      pids = Inr [1, 7],
      process_iter = Inr [Inr proc_init, Inr proc_sshd],
      clock = (\<lambda>n. ''2024-01-01T00:00:'' @ [''0123456789'' ! (n div 10 mod 10),
                                             ''0123456789'' ! (n mod 10)]),
      strftime_iso = (\<lambda>s. Inr (take 10 s @ '' '' @ drop 11 s))\<rparr>"

definition host_data_unreadable :: os where
  \<comment> \<open>\<open>host\<close>, where the usage of \<^verbatim>\<open>/data\<close> cannot be read\<close>
  "host_data_unreadable =
     host\<lparr>disk_usage := (\<lambda>mp. if mp = ''/'' then Inr usage_root
                                else Inl (Exn OSError ''Permission denied''))\<rparr>"

definition host_same_device :: os where
  \<comment> \<open>\<open>host\<close>, where two partitions report the device \<^verbatim>\<open>/dev/sda1\<close>\<close>
  "host_same_device = host\<lparr>disk_partitions := Inr [sda1, sda1_again]\<rparr>"

section \<open>What the loops compute, and the specification's MAC address\<close>

text \<open>
  The entries that the loops build and one turn of the loop of \<^verbatim>\<open>get_disk_info\<close> as a
  function on the dictionary: the properties of the loops are stated and proved on these.
\<close>

definition disk_entry :: "sdiskpart \<Rightarrow> sdiskusage \<Rightarrow> DiskInfo" where
  "disk_entry part usage =
     \<lparr>mountpoint = part_mountpoint part, filesystem = part_fstype part,
      disk_total = usage_total usage, disk_used = usage_used usage,
      disk_free = usage_free usage, disk_percent = usage_percent usage\<rparr>"

definition disk_step ::
  "os \<Rightarrow> sdiskpart \<Rightarrow> (string \<times> DiskInfo) list \<Rightarrow> (string \<times> DiskInfo) list" where
  "disk_step os part disks =
     (case disk_usage os (part_mountpoint part) of
        Inl e \<Rightarrow> disks
      | Inr usage \<Rightarrow> AList.update (part_device part) (disk_entry part usage) disks)"

text \<open>The entry that \<^verbatim>\<open>get_running_processes\<close> appends for a process whose \<^verbatim>\<open>info\<close> was read.\<close>

definition process_entry :: "proc_info \<Rightarrow> ProcessInfo" where
  "process_entry info =
     \<lparr>pid = info_pid info, name = info_name info, username = info_username info,
      memory_percent = info_memory_percent info\<rparr>"

text \<open>The exceptions that \<^verbatim>\<open>get_running_processes\<close> passes over.\<close>

definition skipped :: "exn \<Rightarrow> bool" where
  "skipped e = (class_of e = NoSuchProcess \<or> class_of e = AccessDenied \<or> class_of e = ZombieProcess)"

text \<open>The entries of the processes whose \<^verbatim>\<open>info\<close> could be read, in the order of enumeration.\<close>

definition readable :: "(exn + proc_info) list \<Rightarrow> ProcessInfo list" where
  "readable procs = map (process_entry \<circ> projr) (filter (\<lambda>x. \<not> isl x) procs)"

text \<open>The dictionary that \<^verbatim>\<open>get_network_interfaces\<close> appends for an address.\<close>

definition network_address :: "os \<Rightarrow> snicaddr \<Rightarrow> NetworkAddress" where
  "network_address os a =
     \<lparr>address = nic_address a, netmask = nic_netmask a, family = str_family os (nic_family a)\<rparr>"

text \<open>
  The MAC address in the words of the specification, to compare the code with: the six
  bytes of the node identifier, most significant first, each as two lower-case hex digits,
  joined by colons.
\<close>

definition mac_big_endian :: "int \<Rightarrow> string" where
  "mac_big_endian node =
     join '':'' (map (\<lambda>k. format_02x (drop_bit (8 * k) node AND 0xff)) [5, 4, 3, 2, 1, 0])"

text \<open>
  Further hosts: a process that is counted and whose details cannot be read or are not
  yielded any more, an interrupt, and an interface one of whose address entries cannot be
  read.
\<close>

definition host_vanished :: os where
  "host_vanished =
     host\<lparr>pids := Inr [1, 7, 9],
          process_iter := Inr [Inr proc_init,
                               Inl (Exn NoSuchProcess ''process no longer exists (pid=9)''),
                               Inr proc_sshd]\<rparr>"

definition host_gone :: os where
  \<comment> \<open>the process 9 is counted and no longer there when the details are read\<close>
  "host_gone = host\<lparr>pids := Inr [1, 7, 9]\<rparr>"

definition host_interrupted :: os where
  \<comment> \<open>\<open>host\<close>, interrupted from the keyboard during the wait of \<^verbatim>\<open>psutil.cpu_percent\<close>\<close>
  "host_interrupted = host\<lparr>cpu_percent := Inl (Exn KeyboardInterrupt [])\<rparr>"

definition host_malformed_interface :: os where
  "host_malformed_interface =
     host\<lparr>net_if_addrs :=
       Inr [(''lo'', [Inr \<lparr>nic_family = 2, nic_address = ''127.0.0.1'',
                             nic_netmask = Some ''255.0.0.0''\<rparr>]),
            (''eth0'', [Inl (Exn AttributeError ''object has no attribute address'')]),
            (''wlan0'', [Inr \<lparr>nic_family = 2, nic_address = ''192.168.1.5'',
                                nic_netmask = Some ''255.255.255.0''\<rparr>])]\<rparr>"

section \<open>Running a computation\<close>

lemma return_io_run [simp]: "return_io x tr = (Inr x, tr)"
  by (simp add: return_io_def)

lemma raise_io_run [simp]: "raise_io e tr = (Inl e, tr)"
  by (simp add: raise_io_def)

lemma os_call_run [simp]: "os_call ev r tr = (r, tr @ [ev])"
  by (simp add: os_call_def)

lemma lift_io_run [simp]: "lift_io r tr = (r, tr)"
  by (simp add: lift_io_def)

lemma bind_io_run [simp]:
  "bind_io m f tr = (case m tr of (Inl e, tr') \<Rightarrow> (Inl e, tr') | (Inr x, tr') \<Rightarrow> f x tr')"
  by (simp add: bind_io_def)

lemma try_io_run [simp]:
  "try_io m h tr = (case m tr of (Inl e, tr') \<Rightarrow> h e tr' | (Inr x, tr') \<Rightarrow> (Inr x, tr'))"
  by (simp add: try_io_def)

lemma bind_io_succeeds:
  assumes "bind_io m f tr = (Inr y, tr'')"
  obtains x tr' where "m tr = (Inr x, tr')" and "f x tr' = (Inr y, tr'')"
  using assms by (auto split: prod.splits sum.splits)

section \<open>\<^verbatim>\<open>get_disk_info\<close>: unreadable and repeated devices\<close>

lemma get_disk_info_loop_run:
  "get_disk_info_loop os ps disks tr =
     (Inr (fold (disk_step os) ps disks), tr @ map (\<lambda>p. Ev_disk_usage (part_mountpoint p)) ps)"
proof (induction ps arbitrary: disks tr)
  case Nil
  show ?case by simp
next
  case (Cons p ps)
  show ?case
  proof (cases "disk_usage os (part_mountpoint p)")
    case (Inl e)
    then show ?thesis
      by (simp add: Cons.IH disk_step_def)
  next
    case (Inr u)
    then show ?thesis
      by (simp add: Cons.IH disk_step_def disk_entry_def)
  qed
qed

lemma get_disk_info_run:
  "disk_partitions os = Inr ps \<Longrightarrow>
   get_disk_info os tr =
     (Inr (fold (disk_step os) ps []),
      tr @ Ev_disk_partitions # map (\<lambda>p. Ev_disk_usage (part_mountpoint p)) ps)"
  by (simp add: get_disk_info_def get_disk_info_loop_run)

lemma get_disk_info_raises:
  "disk_partitions os = Inl e \<Longrightarrow> get_disk_info os tr = (Inl e, tr @ [Ev_disk_partitions])"
  by (simp add: get_disk_info_def)

lemma fold_disk_step_delete:
  assumes "\<forall>p\<in>set ps. isl (disk_usage os (part_mountpoint p)) = (part_device p = D)"
    and "\<forall>p\<in>set ps. \<not> isl (disk_usage os' (part_mountpoint p))"
    and "\<forall>p\<in>set ps. part_device p \<noteq> D \<longrightarrow>
           disk_usage os' (part_mountpoint p) = disk_usage os (part_mountpoint p)"
  shows "AList.delete D (fold (disk_step os') ps d) = fold (disk_step os) ps (AList.delete D d)"
  using assms
proof (induction ps arbitrary: d)
  case Nil
  show ?case by simp
next
  case (Cons p ps)
  have rest: "AList.delete D (fold (disk_step os') ps d') = fold (disk_step os) ps (AList.delete D d')"
    for d'
    using Cons.IH Cons.prems by simp
  show ?case
  proof (cases "part_device p = D")
    case True
    with Cons.prems obtain e u where "disk_usage os (part_mountpoint p) = Inl e"
      and "disk_usage os' (part_mountpoint p) = Inr u"
      by (cases "disk_usage os (part_mountpoint p)"; cases "disk_usage os' (part_mountpoint p)") auto
    then have "disk_step os p d' = d'"
      and "disk_step os' p d' = AList.update D (disk_entry p u) d'" for d'
      using True by (simp_all add: disk_step_def)
    then show ?thesis
      by (simp add: rest delete_update_same)
  next
    case False
    with Cons.prems obtain u where "disk_usage os (part_mountpoint p) = Inr u"
      and "disk_usage os' (part_mountpoint p) = Inr u"
      by (cases "disk_usage os (part_mountpoint p)") auto
    then have "disk_step os p d' = AList.update (part_device p) (disk_entry p u) d'"
      and "disk_step os' p d' = AList.update (part_device p) (disk_entry p u) d'" for d'
      by (simp_all add: disk_step_def)
    with False show ?thesis
      by (simp add: rest delete_update)
  qed
qed

lemma distinct_disk_step:
  "distinct (map fst d) \<Longrightarrow> distinct (map fst (disk_step os p d))"
  by (simp add: disk_step_def distinct_update split: sum.splits)

lemma distinct_fold_disk_step:
  "distinct (map fst d) \<Longrightarrow> distinct (map fst (fold (disk_step os) ps d))"
  by (induction ps arbitrary: d) (simp_all add: distinct_disk_step)

lemma keys_disk_step:
  "fst ` set (disk_step os p d) =
     (if isl (disk_usage os (part_mountpoint p)) then fst ` set d
      else insert (part_device p) (fst ` set d))"
  by (cases "disk_usage os (part_mountpoint p)") (simp_all add: disk_step_def dom_update)

lemma keys_fold_disk_step:
  "fst ` set (fold (disk_step os) ps d) =
     fst ` set d \<union> part_device ` {p \<in> set ps. \<not> isl (disk_usage os (part_mountpoint p))}"
  by (induction ps arbitrary: d) (auto simp: keys_disk_step)

lemma map_of_fold_disk_step:
  "map_of (fold (disk_step os) ps d) k = Some v \<Longrightarrow>
     map_of d k = Some v \<or>
     (\<exists>q\<in>set ps. \<exists>u. part_device q = k \<and> disk_usage os (part_mountpoint q) = Inr u
        \<and> v = disk_entry q u)"
proof (induction ps arbitrary: d)
  case Nil
  then show ?case by simp
next
  case (Cons p ps)
  from Cons.prems have "map_of (fold (disk_step os) ps (disk_step os p d)) k = Some v"
    by simp
  from Cons.IH [OF this] show ?case
  proof
    assume "map_of (disk_step os p d) k = Some v"
    then show ?thesis
      by (cases "disk_usage os (part_mountpoint p)")
        (auto simp: disk_step_def update_conv' split: if_splits)
  next
    assume "\<exists>q\<in>set ps. \<exists>u. part_device q = k \<and> disk_usage os (part_mountpoint q) = Inr u
        \<and> v = disk_entry q u"
    then show ?thesis by auto
  qed
qed

lemma length_delete_present:
  "distinct (map fst al) \<Longrightarrow> k \<in> fst ` set al \<Longrightarrow> Suc (length (AList.delete k al)) = length al"
proof (induction al)
  case Nil
  then show ?case by simp
next
  case (Cons a al)
  show ?case
  proof (cases "fst a = k")
    case True
    with Cons.prems have "k \<notin> fst ` set al" by auto
    then have "AList.delete k al = al" by simp
    with True show ?thesis by simp
  next
    case False
    with Cons show ?thesis by auto
  qed
qed

lemma map_of_fold_disk_step_last:
  assumes "disk_usage os (part_mountpoint p) = Inr u"
    and "\<forall>q\<in>set zs. part_device q \<noteq> part_device p"
  shows "map_of (fold (disk_step os) (pre @ p # zs) d) (part_device p) = Some (disk_entry p u)"
proof -
  have keep: "map_of (fold (disk_step os) zs d') (part_device p) = map_of d' (part_device p)" for d'
    using assms(2)
    by (induction zs arbitrary: d') (auto simp: disk_step_def update_conv' split: sum.splits)
  show ?thesis
    using assms(1) by (simp add: keep disk_step_def update_conv')
qed

lemma count_key_distinct:
  "distinct (map fst al) \<Longrightarrow> map_of al k = Some v \<Longrightarrow> filter (\<lambda>q. fst q = k) al = [(k, v)]"
proof (induction al)
  case Nil
  then show ?case by simp
next
  case (Cons a al)
  show ?case
  proof (cases "fst a = k")
    case True
    with Cons.prems have "k \<notin> fst ` set al" and "a = (k, v)" by (auto simp: prod_eq_iff)
    moreover from \<open>k \<notin> fst ` set al\<close> have "filter (\<lambda>q. fst q = k) al = []"
      by (auto simp: filter_empty_conv)
    ultimately show ?thesis by simp
  next
    case False
    with Cons show ?thesis by auto
  qed
qed

text \<open>
  Claim C6. Let the usage query fail for the partitions of exactly one device \<open>D\<close> of
  the enumeration and succeed for all others, and compare with a run on the same
  enumeration in which every query succeeds and the other devices answer the same.
  Then \<^verbatim>\<open>get_disk_info\<close> returns a dictionary and no error; \<open>D\<close> is not a key of it; every
  other device is a key, with the entry built from a partition of that device and the
  usage queried for it; the dictionary is that of the all-succeed run with the entry of
  \<open>D\<close> removed and nothing else changed; and it has exactly one entry less.
\<close>

theorem get_disk_info_one_device_fails:
  assumes "disk_partitions os = Inr ps" and "disk_partitions os' = Inr ps"
    and "D \<in> part_device ` set ps"
    and "\<forall>p\<in>set ps. isl (disk_usage os (part_mountpoint p)) = (part_device p = D)"
    and "\<forall>p\<in>set ps. \<not> isl (disk_usage os' (part_mountpoint p))"
    and "\<forall>p\<in>set ps. part_device p \<noteq> D \<longrightarrow>
           disk_usage os' (part_mountpoint p) = disk_usage os (part_mountpoint p)"
  shows "\<exists>m m'. fst (get_disk_info os tr) = Inr m \<and> fst (get_disk_info os' tr') = Inr m'
     \<and> D \<notin> fst ` set m
     \<and> (\<forall>p\<in>set ps. part_device p \<noteq> D \<longrightarrow>
          (\<exists>q\<in>set ps. \<exists>u. part_device q = part_device p
             \<and> disk_usage os (part_mountpoint q) = Inr u
             \<and> map_of m (part_device p) = Some (disk_entry q u)))
     \<and> m = AList.delete D m'
     \<and> length m + 1 = length m'"
proof -
  define m where "m = fold (disk_step os) ps []"
  define m' where "m' = fold (disk_step os') ps []"
  have run: "fst (get_disk_info os tr) = Inr m" "fst (get_disk_info os' tr') = Inr m'"
    using assms(1,2) by (simp_all add: get_disk_info_run m_def m'_def)
  have del: "m = AList.delete D m'"
    using fold_disk_step_delete [OF assms(4,5,6), of "[]"] by (simp add: m_def m'_def)
  have absent: "D \<notin> fst ` set m"
    unfolding del by (rule delete_notin_dom)
  have "D \<in> fst ` set m'"
    using assms(3,5) by (auto simp: m'_def keys_fold_disk_step)
  moreover have "distinct (map fst m')"
    by (simp add: m'_def distinct_fold_disk_step)
  ultimately have len: "length m + 1 = length m'"
    unfolding del by (simp add: length_delete_present)
  have others: "\<exists>q\<in>set ps. \<exists>u. part_device q = part_device p
      \<and> disk_usage os (part_mountpoint q) = Inr u
      \<and> map_of m (part_device p) = Some (disk_entry q u)"
    if "p \<in> set ps" and "part_device p \<noteq> D" for p
  proof -
    from that assms(4) have "part_device p \<in> fst ` set m"
      by (auto simp: m_def keys_fold_disk_step)
    then obtain v where v: "map_of m (part_device p) = Some v"
      by (metis domD dom_map_of_conv_image_fst)
    from map_of_fold_disk_step [OF v [unfolded m_def]] v show ?thesis
      by auto
  qed
  from run absent others del len show ?thesis by blast
qed

theorem get_disk_info_one_device_fails_witness:
  "\<exists>m m'. fst (get_disk_info host_data_unreadable []) = Inr m
     \<and> fst (get_disk_info host []) = Inr m'
     \<and> ''/dev/sdb1'' \<notin> fst ` set m
     \<and> (\<forall>p\<in>set [sda1, sdb1]. part_device p \<noteq> ''/dev/sdb1'' \<longrightarrow>
          (\<exists>q\<in>set [sda1, sdb1]. \<exists>u. part_device q = part_device p
             \<and> disk_usage host_data_unreadable (part_mountpoint q) = Inr u
             \<and> map_of m (part_device p) = Some (disk_entry q u)))
     \<and> m = AList.delete ''/dev/sdb1'' m'
     \<and> length m + 1 = length m'"
proof -
  have h1: "disk_partitions host_data_unreadable = Inr [sda1, sdb1]"
    by (simp add: host_data_unreadable_def host_def)
  have h2: "disk_partitions host = Inr [sda1, sdb1]"
    by (simp add: host_def)
  have h3: "''/dev/sdb1'' \<in> part_device ` set [sda1, sdb1]"
    by (simp add: sdb1_def)
  have h4: "\<forall>p\<in>set [sda1, sdb1].
      isl (disk_usage host_data_unreadable (part_mountpoint p)) = (part_device p = ''/dev/sdb1'')"
    by (simp add: host_data_unreadable_def host_def sda1_def sdb1_def)
  have h5: "\<forall>p\<in>set [sda1, sdb1]. \<not> isl (disk_usage host (part_mountpoint p))"
    by (simp add: host_def sda1_def sdb1_def)
  have h6: "\<forall>p\<in>set [sda1, sdb1]. part_device p \<noteq> ''/dev/sdb1'' \<longrightarrow>
      disk_usage host (part_mountpoint p) = disk_usage host_data_unreadable (part_mountpoint p)"
    by (simp add: host_data_unreadable_def host_def sda1_def sdb1_def)
  show ?thesis
    by (rule get_disk_info_one_device_fails [OF h1 h2 h3 h4 h5 h6])
qed

text \<open>
  Claim C10. The dictionary of \<^verbatim>\<open>get_disk_info\<close> is keyed by the device of the partition:
  when two partitions of the enumeration report the same device \<open>D\<close>, both usage queries
  succeed and no partition enumerated after the second reports \<open>D\<close>, the dictionary
  returned has exactly one entry for \<open>D\<close>, and it holds the mount point, the file system
  and the usage of the later partition.
\<close>

theorem get_disk_info_same_device:
  assumes "disk_partitions os = Inr (xs @ p1 # ys @ p2 # zs)"
    and "part_device p1 = D" and "part_device p2 = D"
    and "disk_usage os (part_mountpoint p1) = Inr u1"
    and "disk_usage os (part_mountpoint p2) = Inr u2"
    and "\<forall>q\<in>set zs. part_device q \<noteq> D"
  shows "\<exists>m. fst (get_disk_info os tr) = Inr m
     \<and> filter (\<lambda>q. fst q = D) m = [(D, disk_entry p2 u2)]"
proof -
  define m where "m = fold (disk_step os) (xs @ p1 # ys @ p2 # zs) []"
  have run: "fst (get_disk_info os tr) = Inr m"
    using assms(1) by (simp add: get_disk_info_run m_def)
  have "map_of (fold (disk_step os) ((xs @ p1 # ys) @ p2 # zs) []) (part_device p2)
          = Some (disk_entry p2 u2)"
    using assms(3,5,6) by (intro map_of_fold_disk_step_last) auto
  then have "map_of m D = Some (disk_entry p2 u2)"
    using assms(3) by (simp add: m_def)
  moreover have "distinct (map fst m)"
    unfolding m_def by (rule distinct_fold_disk_step) simp
  ultimately have "filter (\<lambda>q. fst q = D) m = [(D, disk_entry p2 u2)]"
    by (rule count_key_distinct [rotated])
  with run show ?thesis by blast
qed

theorem get_disk_info_same_device_witness:
  "\<exists>m. fst (get_disk_info host_same_device []) = Inr m
     \<and> filter (\<lambda>q. fst q = ''/dev/sda1'') m = [(''/dev/sda1'', disk_entry sda1_again usage_data)]"
proof -
  have h1: "disk_partitions host_same_device = Inr ([] @ sda1 # [] @ sda1_again # [])"
    by (simp add: host_same_device_def)
  have h2: "part_device sda1 = ''/dev/sda1''" and h3: "part_device sda1_again = ''/dev/sda1''"
    by (simp_all add: sda1_def sda1_again_def)
  have h4: "disk_usage host_same_device (part_mountpoint sda1) = Inr usage_root"
    by (simp add: host_same_device_def host_def sda1_def)
  have h5: "disk_usage host_same_device (part_mountpoint sda1_again) = Inr usage_data"
    by (simp add: host_same_device_def host_def sda1_again_def)
  have h6: "\<forall>q\<in>set []. part_device q \<noteq> ''/dev/sda1''"
    by simp
  show ?thesis
    by (rule get_disk_info_same_device [OF h1 h2 h3 h4 h5 h6])
qed

section \<open>What the collectors do when they are run\<close>

lemma readable_simps [simp]:
  "readable [] = []"
  "readable (Inl e # procs) = readable procs"
  "readable (Inr info # procs) = process_entry info # readable procs"
  by (simp_all add: readable_def)

lemma running_processes_loop_succeeds:
  "running_processes_loop procs acc tr = (Inr r, tr') \<Longrightarrow>
     tr' = tr \<and> r = acc @ readable procs \<and> (\<forall>e. Inl e \<in> set procs \<longrightarrow> skipped e)"
proof (induction procs arbitrary: acc)
  case Nil
  then show ?case by simp
next
  case (Cons x procs)
  show ?case
  proof (cases x)
    case (Inl e)
    show ?thesis
    proof (cases "skipped e")
      case True
      with Inl Cons.prems have "running_processes_loop procs acc tr = (Inr r, tr')"
        by (simp add: skipped_def)
      from Cons.IH [OF this] True Inl show ?thesis by auto
    next
      case False
      with Inl Cons.prems show ?thesis by (simp add: skipped_def)
    qed
  next
    case (Inr info)
    with Cons.prems have "running_processes_loop procs (acc @ [process_entry info]) tr = (Inr r, tr')"
      by (simp add: process_entry_def)
    from Cons.IH [OF this] Inr show ?thesis by auto
  qed
qed

lemma get_running_processes_succeeds:
  assumes "get_running_processes os tr = (Inr r, tr')"
  obtains procs where "process_iter os = Inr procs" and "r = readable procs"
    and "tr' = tr @ [Ev_process_iter]" and "\<forall>e. Inl e \<in> set procs \<longrightarrow> skipped e"
proof (cases "process_iter os")
  case (Inl e)
  with assms show ?thesis by (simp add: get_running_processes_def)
next
  case (Inr procs)
  with assms have "running_processes_loop procs [] (tr @ [Ev_process_iter]) = (Inr r, tr')"
    by (simp add: get_running_processes_def)
  from running_processes_loop_succeeds [OF this] Inr that show ?thesis by simp
qed

lemma mac_octets_run:
  "getnode os = Inr node \<Longrightarrow>
   mac_octets os es tr =
     (Inr (map (\<lambda>e. format_02x (drop_bit e node AND 0xff)) es),
      tr @ replicate (length es) Ev_getnode)"
proof (induction es arbitrary: tr)
  case Nil
  show ?case by simp
next
  case (Cons e es)
  then show ?case by (simp add: replicate_append_same)
qed

lemma range_step_mac: "range_step 0 (2 * 6) 2 = [0, 2, 4, 6, 8, 10]"
  by (simp add: range_step_def upt_rec)

lemma replicate_6: "replicate 6 x = [x, x, x, x, x, x]"
  by (simp add: eval_nat_numeral)

lemma mac_address_of_run:
  "getnode os = Inr node \<Longrightarrow>
   mac_address_of os tr =
     (Inr (join '':'' (map (\<lambda>e. format_02x (drop_bit e node AND 0xff)) [10, 8, 6, 4, 2, 0])),
      tr @ replicate 6 Ev_getnode)"
  unfolding mac_address_of_def range_step_mac by (simp add: mac_octets_run replicate_6)

lemma mac_address_of_succeeds:
  assumes "mac_address_of os tr = (Inr r, tr')"
  shows "tr' = tr @ replicate 6 Ev_getnode"
proof (cases "getnode os")
  case (Inl e)
  with assms show ?thesis unfolding mac_address_of_def range_step_mac by simp
next
  case (Inr node)
  with assms show ?thesis by (simp add: mac_address_of_run)
qed

lemma addresses_loop_trace: "snd (addresses_loop os i addrs ifs tr) = tr"
proof (induction addrs arbitrary: ifs)
  case Nil
  show ?case by simp
next
  case (Cons a addrs)
  show ?case
    by (cases a; cases "getitem ifs i") (simp_all add: Cons.IH)
qed

lemma interfaces_loop_trace: "snd (interfaces_loop os items ifs tr) = tr"
proof (induction items arbitrary: ifs)
  case Nil
  show ?case by simp
next
  case (Cons it items)
  obtain i addrs where it: "it = (i, addrs)" by (cases it)
  obtain r where r: "addresses_loop os i addrs (AList.update i [] ifs) tr = (r, tr)"
    using addresses_loop_trace [of os i addrs "AList.update i [] ifs" tr]
    by (cases "addresses_loop os i addrs (AList.update i [] ifs) tr") simp
  show ?case
    by (cases r) (simp_all add: it r Cons.IH)
qed

lemma get_network_interfaces_trace:
  "snd (get_network_interfaces os tr) = tr @ [Ev_net_if_addrs]"
  by (cases "net_if_addrs os") (simp_all add: get_network_interfaces_def interfaces_loop_trace)

lemma addresses_loop_fst:
  "fst (addresses_loop os i addrs ifs tr) = fst (addresses_loop os i addrs ifs [])"
proof (induction addrs arbitrary: ifs)
  case Nil
  show ?case by simp
next
  case (Cons a addrs)
  show ?case
    by (cases a; cases "getitem ifs i") (simp_all add: Cons.IH)
qed

lemma interfaces_loop_fst:
  "fst (interfaces_loop os items ifs tr) = fst (interfaces_loop os items ifs [])"
proof (induction items arbitrary: ifs)
  case Nil
  show ?case by simp
next
  case (Cons it items)
  obtain i addrs where it: "it = (i, addrs)" by (cases it)
  obtain r where r: "fst (addresses_loop os i addrs (AList.update i [] ifs) []) = r"
    by simp
  have run: "addresses_loop os i addrs (AList.update i [] ifs) t = (r, t)" for t
    using addresses_loop_trace [of os i addrs "AList.update i [] ifs" t]
      addresses_loop_fst [of os i addrs "AList.update i [] ifs" t] r
    by (simp add: prod_eq_iff)
  show ?case
    by (cases r) (simp_all add: it run Cons.IH)
qed

lemma get_network_interfaces_fst:
  "fst (get_network_interfaces os tr) = fst (get_network_interfaces os [])"
proof (cases "net_if_addrs os")
  case (Inl e)
  then show ?thesis by (simp add: get_network_interfaces_def)
next
  case (Inr items)
  then show ?thesis
    using interfaces_loop_fst [of os items "[]" "tr @ [Ev_net_if_addrs]"]
      interfaces_loop_fst [of os items "[]" "[Ev_net_if_addrs]"]
    by (simp add: get_network_interfaces_def)
qed

lemma get_cpu_frequency_run:
  "get_cpu_frequency os tr =
     (Inr (case cpu_freq os of
             Inr (Some f) \<Rightarrow> Some \<lparr>freq_current = cf_current f, freq_min = cf_min f,
                                    freq_max = cf_max f\<rparr>
           | _ \<Rightarrow> None),
      tr @ [Ev_cpu_freq])"
  by (simp add: get_cpu_frequency_def split: sum.splits option.splits)

section \<open>A cycle that returns\<close>

text \<open>
  When \<^verbatim>\<open>collect\<close> returns a \<^verbatim>\<open>SystemData\<close>, every query before has succeeded: the trace
  of the cycle, the time stamp and the process data are then determined.
\<close>

lemma os_call_succeeds:
  assumes "os_call ev r tr = (Inr x, tr')"
  obtains "r = Inr x" and "tr' = tr @ [ev]"
  using assms by simp

lemma return_io_succeeds:
  assumes "return_io y tr = (Inr x, tr')"
  obtains "x = y" and "tr' = tr"
  using assms by simp

lemma datetime_now_isoformat_succeeds:
  assumes "datetime_now_isoformat os tr = (Inr now, tr')"
  obtains "now = clock os (length tr)" and "tr' = tr @ [Ev_datetime_now]"
  using assms by (simp add: datetime_now_isoformat_def)

lemma mac_address_of_succeedsE:
  assumes "mac_address_of os tr = (Inr r, tr')"
  obtains "tr' = tr @ replicate 6 Ev_getnode"
  using assms by (simp add: mac_address_of_succeeds)

lemma get_network_interfaces_succeeds:
  assumes "get_network_interfaces os tr = (Inr r, tr')"
  obtains "tr' = tr @ [Ev_net_if_addrs]" and "fst (get_network_interfaces os []) = Inr r"
  using assms get_network_interfaces_trace [of os tr] get_network_interfaces_fst [of os tr]
  by simp

lemma get_cpu_frequency_succeeds:
  assumes "get_cpu_frequency os tr = (Inr r, tr')"
  obtains "tr' = tr @ [Ev_cpu_freq]"
  using assms by (simp add: get_cpu_frequency_run)

lemma get_disk_info_succeeds:
  assumes "get_disk_info os tr = (Inr m, tr')"
  obtains ps where "disk_partitions os = Inr ps" and "m = fold (disk_step os) ps []"
    and "tr' = tr @ Ev_disk_partitions # map (\<lambda>p. Ev_disk_usage (part_mountpoint p)) ps"
proof (cases "disk_partitions os")
  case (Inl e)
  with assms show ?thesis by (simp add: get_disk_info_raises)
next
  case (Inr ps)
  with assms that show ?thesis by (simp add: get_disk_info_run)
qed

lemma collect_succeeds:
  assumes "collect os tr = (Inr s, tr')"
  shows "\<exists>h ps all_pids procs.
      gethostname os = Inr h \<and> disk_partitions os = Inr ps
    \<and> pids os = Inr all_pids \<and> process_iter os = Inr procs
    \<and> (\<forall>e. Inl e \<in> set procs \<longrightarrow> skipped e)
    \<and> tr' = tr @ [Ev_platform_system, Ev_platform_release, Ev_platform_version,
                   Ev_platform_machine, Ev_platform_processor, Ev_platform_architecture,
                   Ev_gethostname, Ev_gethostname, Ev_gethostbyname h]
               @ replicate 6 Ev_getnode
               @ [Ev_net_if_addrs, Ev_cpu_count False, Ev_cpu_count True, Ev_cpu_freq,
                  Ev_cpu_percent, Ev_virtual_memory, Ev_disk_partitions]
               @ map (\<lambda>p. Ev_disk_usage (part_mountpoint p)) ps
               @ [Ev_pids, Ev_process_iter, Ev_datetime_now]
    \<and> timestamp s = clock os (length tr + 24 + length ps)
    \<and> fst (get_network_interfaces os []) = Inr (network_interfaces (network s))
    \<and> disk (hardware s) = fold (disk_step os) ps []
    \<and> process s = \<lparr>total_processes = int (length all_pids),
                     running_processes = readable procs\<rparr>"
  using assms unfolding collect_def Let_def
  by (elim bind_io_succeeds,
      elim os_call_succeeds return_io_succeeds datetime_now_isoformat_succeeds
        mac_address_of_succeedsE get_network_interfaces_succeeds get_cpu_frequency_succeeds
        get_disk_info_succeeds get_running_processes_succeeds,
      hypsubst, simp add: add.assoc)

section \<open>The time stamp, the process count and the result of the manager\<close>

lemma collect_succeeds_fst:
  assumes "fst (collect os tr) = Inr s"
  shows "collect os tr = (Inr s, snd (collect os tr))"
  using assms by (cases "collect os tr") simp

text \<open>
  Claim C3, as amended. In every cycle that returns a \<^verbatim>\<open>SystemData\<close> the clock is read
  exactly once, and this reading is the last call of the cycle: it comes after the queries
  of all four collectors (platform, network, hardware, process), and the time stamp is the
  clock's text at that instant. The time stamp is thus taken after the collectors, not
  before them.
\<close>

theorem collect_timestamp_taken_last:
  assumes "fst (collect os tr) = Inr s"
  shows "\<exists>evs. snd (collect os tr) = tr @ evs @ [Ev_datetime_now]
     \<and> Ev_datetime_now \<notin> set evs
     \<and> {Ev_platform_system, Ev_platform_release, Ev_platform_version, Ev_platform_machine,
         Ev_platform_processor, Ev_platform_architecture,
         Ev_gethostname, Ev_getnode, Ev_net_if_addrs,
         Ev_cpu_count False, Ev_cpu_count True, Ev_cpu_freq, Ev_cpu_percent,
         Ev_virtual_memory, Ev_disk_partitions,
         Ev_pids, Ev_process_iter} \<subseteq> set evs
     \<and> timestamp s = clock os (length (tr @ evs))"
proof -
  obtain h and ps :: "sdiskpart list" where tr': "snd (collect os tr) =
      tr @ [Ev_platform_system, Ev_platform_release, Ev_platform_version,
            Ev_platform_machine, Ev_platform_processor, Ev_platform_architecture,
            Ev_gethostname, Ev_gethostname, Ev_gethostbyname h]
         @ replicate 6 Ev_getnode
         @ [Ev_net_if_addrs, Ev_cpu_count False, Ev_cpu_count True, Ev_cpu_freq,
            Ev_cpu_percent, Ev_virtual_memory, Ev_disk_partitions]
         @ map (\<lambda>p. Ev_disk_usage (part_mountpoint p)) ps
         @ [Ev_pids, Ev_process_iter, Ev_datetime_now]"
    and ts: "timestamp s = clock os (length tr + 24 + length ps)"
  proof -
    from collect_succeeds [OF collect_succeeds_fst [OF assms]] show thesis
      by (elim exE conjE) (rule that; assumption)
  qed
  let ?evs = "[Ev_platform_system, Ev_platform_release, Ev_platform_version,
            Ev_platform_machine, Ev_platform_processor, Ev_platform_architecture,
            Ev_gethostname, Ev_gethostname, Ev_gethostbyname h]
         @ replicate 6 Ev_getnode
         @ [Ev_net_if_addrs, Ev_cpu_count False, Ev_cpu_count True, Ev_cpu_freq,
            Ev_cpu_percent, Ev_virtual_memory, Ev_disk_partitions]
         @ map (\<lambda>p. Ev_disk_usage (part_mountpoint p)) ps
         @ [Ev_pids, Ev_process_iter]"
  have "snd (collect os tr) = tr @ ?evs @ [Ev_datetime_now]"
    using tr' by simp
  moreover have "Ev_datetime_now \<notin> set ?evs"
    by auto
  moreover have "{Ev_platform_system, Ev_platform_release, Ev_platform_version,
         Ev_platform_machine, Ev_platform_processor, Ev_platform_architecture,
         Ev_gethostname, Ev_getnode, Ev_net_if_addrs,
         Ev_cpu_count False, Ev_cpu_count True, Ev_cpu_freq, Ev_cpu_percent,
         Ev_virtual_memory, Ev_disk_partitions,
         Ev_pids, Ev_process_iter} \<subseteq> set ?evs"
    by simp
  moreover have "timestamp s = clock os (length (tr @ ?evs))"
    using ts by (simp add: add.assoc)
  ultimately show ?thesis by blast
qed

lemma host_collects: "fst (collect host []) = Inr (projr (fst (collect host [])))"
  by code_simp

theorem collect_timestamp_taken_last_witness:
  "\<exists>evs. snd (collect host []) = [] @ evs @ [Ev_datetime_now]
     \<and> Ev_datetime_now \<notin> set evs
     \<and> {Ev_platform_system, Ev_platform_release, Ev_platform_version, Ev_platform_machine,
         Ev_platform_processor, Ev_platform_architecture,
         Ev_gethostname, Ev_getnode, Ev_net_if_addrs,
         Ev_cpu_count False, Ev_cpu_count True, Ev_cpu_freq, Ev_cpu_percent,
         Ev_virtual_memory, Ev_disk_partitions,
         Ev_pids, Ev_process_iter} \<subseteq> set evs
     \<and> timestamp (projr (fst (collect host []))) = clock host (length ([] @ evs))"
  by (rule collect_timestamp_taken_last [OF host_collects])

text \<open>
  Claim C3 as stated fails: on \<open>host\<close> the reading of the clock is the last of the 27
  calls of the cycle, after every collector has been invoked, and the time stamp is the
  clock's text after 26 calls, which differs from the clock's text at the start of the cycle.
\<close>

theorem collect_timestamp_first_counterexample:
  "snd (collect host []) =
     [Ev_platform_system, Ev_platform_release, Ev_platform_version, Ev_platform_machine,
      Ev_platform_processor, Ev_platform_architecture, Ev_gethostname, Ev_gethostname,
      Ev_gethostbyname ''box'', Ev_getnode, Ev_getnode, Ev_getnode, Ev_getnode, Ev_getnode,
      Ev_getnode, Ev_net_if_addrs, Ev_cpu_count False, Ev_cpu_count True, Ev_cpu_freq,
      Ev_cpu_percent, Ev_virtual_memory, Ev_disk_partitions, Ev_disk_usage ''/'',
      Ev_disk_usage ''/data'', Ev_pids, Ev_process_iter, Ev_datetime_now]
   \<and> map_sum id timestamp (fst (collect host [])) = Inr (clock host 26)
   \<and> clock host 26 \<noteq> clock host 0"
  by code_simp

lemma readable_append: "readable (xs @ ys) = readable xs @ readable ys"
  by (simp add: readable_def)

lemma length_readable: "length (readable xs) \<le> length xs"
  by (simp add: readable_def)

lemma pid_readable: "pid ` set (readable xs) = info_pid ` {info. Inr info \<in> set xs}"
proof (induction xs)
  case Nil
  show ?case by simp
next
  case (Cons x xs)
  then show ?case by (cases x) (auto simp: process_entry_def)
qed

lemma fewer_when_one_missing:
  assumes "distinct xs" and "set xs \<subseteq> set ys" and "P \<in> set ys" and "P \<notin> set xs"
  shows "length xs < length ys"
proof -
  from assms(2,3,4) have "set xs \<subset> set ys" by blast
  then have "card (set xs) < card (set ys)"
    by (simp add: psubset_card_mono)
  moreover have "card (set xs) = length xs"
    using assms(1) by (rule distinct_card)
  moreover have "card (set ys) \<le> length ys"
    by (rule card_length)
  ultimately show ?thesis by simp
qed

text \<open>
  Claim C9. In every cycle that returns, \<^verbatim>\<open>total_processes\<close> is the length of
  \<^verbatim>\<open>psutil.pids()\<close>, whatever the pass over \<^verbatim>\<open>process_iter\<close> yields, and
  \<^verbatim>\<open>running_processes\<close> holds the entries of that second pass whose \<^verbatim>\<open>info\<close> could be read,
  in order. A pid \<open>P\<close> is among \<^verbatim>\<open>running_processes\<close> exactly when the second pass
  yields a readable entry for it: a process that has disappeared (not yielded any more,
  or its entry raising) is absent, whether or not \<^verbatim>\<open>pids()\<close> has counted it. And when
  \<open>P\<close> is counted by \<^verbatim>\<open>pids()\<close> and absent from \<^verbatim>\<open>running_processes\<close>, whose pids are
  distinct and among those counted, \<^verbatim>\<open>total_processes\<close> is greater than the length of
  \<^verbatim>\<open>running_processes\<close>.
\<close>

theorem total_processes_independent_of_detail_pass:
  assumes "fst (collect os tr) = Inr s"
    and "pids os = Inr all_pids" and "process_iter os = Inr procs"
  shows "total_processes (process s) = int (length all_pids)
     \<and> running_processes (process s) = readable procs
     \<and> (P \<in> pid ` set (running_processes (process s)))
         = (\<exists>info. Inr info \<in> set procs \<and> info_pid info = P)
     \<and> (P \<in> set all_pids \<and> P \<notin> pid ` set (running_processes (process s))
          \<and> distinct (map pid (running_processes (process s)))
          \<and> pid ` set (running_processes (process s)) \<subseteq> set all_pids
         \<longrightarrow> int (length (running_processes (process s))) < total_processes (process s))"
proof -
  obtain all_pids' procs' where "pids os = Inr all_pids'" and "process_iter os = Inr procs'"
    and "process s = \<lparr>total_processes = int (length all_pids'),
                         running_processes = readable procs'\<rparr>"
  proof -
    from collect_succeeds [OF collect_succeeds_fst [OF assms(1)]] show thesis
      by (elim exE conjE) (rule that; assumption)
  qed
  with assms(2,3)
  have p: "process s = \<lparr>total_processes = int (length all_pids),
                         running_processes = readable procs\<rparr>"
    by simp
  have total: "total_processes (process s) = int (length all_pids)"
    and running: "running_processes (process s) = readable procs"
    by (simp_all add: p)
  have present: "(P \<in> pid ` set (running_processes (process s)))
      = (\<exists>info. Inr info \<in> set procs \<and> info_pid info = P)"
    unfolding running pid_readable by auto
  have differ: "int (length (running_processes (process s))) < total_processes (process s)"
    if "P \<in> set all_pids" and "P \<notin> pid ` set (running_processes (process s))"
      and "distinct (map pid (running_processes (process s)))"
      and "pid ` set (running_processes (process s)) \<subseteq> set all_pids"
  proof -
    from that have "length (map pid (running_processes (process s))) < length all_pids"
      by (intro fewer_when_one_missing [of _ _ P]) simp_all
    then show ?thesis by (simp add: total)
  qed
  from total running present differ show ?thesis by blast
qed

lemma host_gone_collects:
  "fst (collect host_gone []) = Inr (projr (fst (collect host_gone [])))"
  by code_simp

lemma host_vanished_collects:
  "fst (collect host_vanished []) = Inr (projr (fst (collect host_vanished [])))"
  by code_simp

theorem total_processes_independent_of_detail_pass_witness:
  "total_processes (process (projr (fst (collect host_gone [])))) = 3
     \<and> running_processes (process (projr (fst (collect host_gone [])))) =
         [process_entry proc_init, process_entry proc_sshd]
     \<and> 9 \<notin> pid ` set (running_processes (process (projr (fst (collect host_gone [])))))
     \<and> int (length (running_processes (process (projr (fst (collect host_gone []))))))
           < total_processes (process (projr (fst (collect host_gone []))))
     \<and> total_processes (process (projr (fst (collect host_vanished [])))) = 3
     \<and> running_processes (process (projr (fst (collect host_vanished [])))) =
         [process_entry proc_init, process_entry proc_sshd]"
proof -
  have g2: "pids host_gone = Inr [1, 7, 9]"
    by (simp add: host_gone_def)
  have g3: "process_iter host_gone = Inr [Inr proc_init, Inr proc_sshd]"
    by (simp add: host_gone_def host_def)
  note g = total_processes_independent_of_detail_pass [OF host_gone_collects g2 g3, of 9]
  from g have total: "total_processes (process (projr (fst (collect host_gone [])))) = 3"
    by simp
  from g have running: "running_processes (process (projr (fst (collect host_gone [])))) =
      [process_entry proc_init, process_entry proc_sshd]"
    by simp
  have absent:
    "9 \<notin> pid ` set (running_processes (process (projr (fst (collect host_gone [])))))"
    by (simp add: running process_entry_def proc_init_def proc_sshd_def)
  have v2: "pids host_vanished = Inr [1, 7, 9]"
    by (simp add: host_vanished_def)
  have v3: "process_iter host_vanished = Inr [Inr proc_init,
      Inl (Exn NoSuchProcess ''process no longer exists (pid=9)''), Inr proc_sshd]"
    by (simp add: host_vanished_def)
  note v = total_processes_independent_of_detail_pass [OF host_vanished_collects v2 v3, of 9]
  from v have vtotal: "total_processes (process (projr (fst (collect host_vanished [])))) = 3"
    by simp
  from v have vrunning: "running_processes (process (projr (fst (collect host_vanished [])))) =
      [process_entry proc_init, process_entry proc_sshd]"
    by simp
  show ?thesis
    by (simp add: total running vtotal vrunning process_entry_def proc_init_def proc_sshd_def)
qed

lemma read_system_data_run:
  "read_system_data os tr =
     (case collect os tr of
        (Inr s, tr') \<Rightarrow> (Inr (asdict s), tr')
      | (Inl e, tr') \<Rightarrow>
          (if is_Exception e
           then (Inr [(''error'', PStr (''Failed to collect system data: '' @ str_exn e))], tr')
           else (Inl e, tr')))"
  by (simp add: read_system_data_def split: prod.splits sum.splits)

lemma asdict_complete:
  "\<exists>p n h q.
      asdict s = [(''timestamp'', PStr (timestamp s)), (''platform'', PDict p),
                  (''network'', PDict n), (''hardware'', PDict h), (''process'', PDict q)]
    \<and> map fst p = [''system'', ''release'', ''version'', ''machine'', ''processor'',
                    ''architecture'', ''python_version'']
    \<and> map fst n = [''hostname'', ''ip_address'', ''mac_address'', ''network_interfaces'']
    \<and> map fst h = [''cpu'', ''memory'', ''disk'']
    \<and> map fst q = [''total_processes'', ''running_processes'']"
  by (simp add: asdict_def val_of_PlatformData_def val_of_NetworkData_def
      val_of_HardwareData_def val_of_ProcessData_def)

text \<open>
  Claim C5, as amended. On every host and from every trace, \<^verbatim>\<open>read_system_data\<close> does one
  of three things, decided by the outcome of \<^verbatim>\<open>collect\<close>. When \<^verbatim>\<open>collect\<close> returns a
  \<^verbatim>\<open>SystemData\<close>, it returns its dictionary, which is complete: the keys \<^verbatim>\<open>timestamp\<close>,
  \<^verbatim>\<open>platform\<close>, \<^verbatim>\<open>network\<close>, \<^verbatim>\<open>hardware\<close> and \<^verbatim>\<open>process\<close>, the time stamp a string and each
  of the four sub-records a dictionary with all its fields. When \<^verbatim>\<open>collect\<close> raises an
  exception that derives from \<^verbatim>\<open>Exception\<close>, it returns the single entry \<^verbatim>\<open>error\<close> with the
  text \<^verbatim>\<open>Failed to collect system data: \<close> followed by \<^verbatim>\<open>str(e)\<close>. When \<^verbatim>\<open>collect\<close> raises
  any other exception (\<^verbatim>\<open>KeyboardInterrupt\<close>, \<^verbatim>\<open>SystemExit\<close>), that exception leaves
  \<^verbatim>\<open>read_system_data\<close>. A partly filled dictionary is never returned.
\<close>

theorem read_system_data_outcome:
  "(case collect os tr of
      (Inr s, tr') \<Rightarrow>
         read_system_data os tr = (Inr (asdict s), tr')
       \<and> (\<exists>p n h q.
             asdict s = [(''timestamp'', PStr (timestamp s)), (''platform'', PDict p),
                         (''network'', PDict n), (''hardware'', PDict h),
                         (''process'', PDict q)]
           \<and> map fst p = [''system'', ''release'', ''version'', ''machine'', ''processor'',
                           ''architecture'', ''python_version'']
           \<and> map fst n = [''hostname'', ''ip_address'', ''mac_address'',
                           ''network_interfaces'']
           \<and> map fst h = [''cpu'', ''memory'', ''disk'']
           \<and> map fst q = [''total_processes'', ''running_processes''])
    | (Inl e, tr') \<Rightarrow>
         read_system_data os tr =
           (if is_Exception e
            then (Inr [(''error'', PStr (''Failed to collect system data: '' @ str_exn e))], tr')
            else (Inl e, tr')))"
proof (cases "collect os tr")
  case (Pair r tr')
  show ?thesis
  proof (cases r)
    case (Inl e)
    with Pair show ?thesis by (simp add: read_system_data_run)
  next
    case (Inr s)
    with Pair asdict_complete [of s] show ?thesis
      by (simp add: read_system_data_run)
  qed
qed

lemma host_malformed_interface_raises:
  "collect host_malformed_interface [] =
     (Inl (Exn AttributeError ''object has no attribute address''),
      snd (collect host_malformed_interface []))"
  by code_simp

theorem read_system_data_outcome_witness:
  "read_system_data host [] =
     (Inr (asdict (projr (fst (collect host [])))), snd (collect host []))
   \<and> read_system_data host_malformed_interface [] =
     (Inr [(''error'', PStr ''Failed to collect system data: object has no attribute address'')],
      snd (collect host_malformed_interface []))"
proof -
  have "read_system_data host [] =
      (Inr (asdict (projr (fst (collect host [])))), snd (collect host []))"
    using read_system_data_outcome [of host "[]"] host_collects
    by (cases "collect host []") (auto split: sum.splits)
  moreover have "read_system_data host_malformed_interface [] =
     (Inr [(''error'', PStr ''Failed to collect system data: object has no attribute address'')],
      snd (collect host_malformed_interface []))"
    using read_system_data_outcome [of host_malformed_interface "[]"]
    by (subst (asm) host_malformed_interface_raises) (simp add: is_Exception_def)
  ultimately show ?thesis by simp
qed

text \<open>
  Claim C5 as stated fails: an interrupt from the keyboard during the wait of
  \<^verbatim>\<open>psutil.cpu_percent\<close> is no \<^verbatim>\<open>Exception\<close>; it passes the handler of
  \<^verbatim>\<open>read_system_data\<close>, which returns neither a result nor a failure descriptor.
\<close>

theorem read_system_data_interrupt_counterexample:
  "fst (read_system_data host_interrupted []) = Inl (Exn KeyboardInterrupt [])"
  by code_simp

section \<open>\<^verbatim>\<open>get_network_interfaces\<close>: an entry that cannot be read\<close>

lemma find_append:
  "List.find P (xs @ ys) = (case List.find P xs of None \<Rightarrow> List.find P ys | Some x \<Rightarrow> Some x)"
  by (induction xs) simp_all

lemma update_fresh: "k \<notin> fst ` set al \<Longrightarrow> AList.update k v al = al @ [(k, v)]"
  by (induction al) auto

lemma update_at_end: "k \<notin> fst ` set al \<Longrightarrow> AList.update k v (al @ [(k, w)]) = al @ [(k, v)]"
  by (induction al) auto

lemma getitem_present: "map_of d k = Some v \<Longrightarrow> getitem d k = Inr v"
  by (simp add: getitem_def)

lemma addresses_loop_run:
  "map_of ifs i = Some l \<Longrightarrow>
   addresses_loop os i addrs ifs tr =
     (case List.find isl addrs of
        None \<Rightarrow> Inr (AList.update i (l @ map (network_address os \<circ> projr) addrs) ifs)
      | Some r \<Rightarrow> Inl (projl r), tr)"
proof (induction addrs arbitrary: ifs l)
  case Nil
  then show ?case by (simp add: update_triv)
next
  case (Cons a addrs)
  show ?case
  proof (cases a)
    case (Inl e)
    then show ?thesis by simp
  next
    case (Inr x)
    let ?ifs = "AList.update i (l @ [network_address os x]) ifs"
    have step: "addresses_loop os i (a # addrs) ifs tr = addresses_loop os i addrs ?ifs tr"
      using Inr Cons.prems by (simp add: getitem_present network_address_def)
    have "map_of ?ifs i = Some (l @ [network_address os x])"
      by (simp add: update_conv')
    from Cons.IH [OF this] show ?thesis
      unfolding step by (simp add: Inr split: option.splits)
  qed
qed

lemma interfaces_loop_run:
  "distinct (map fst items) \<Longrightarrow> fst ` set items \<inter> fst ` set ifs = {} \<Longrightarrow>
   interfaces_loop os items ifs tr =
     (case List.find isl (concat (map snd items)) of
        None \<Rightarrow> Inr (ifs @ map (\<lambda>(i, addrs). (i, map (network_address os \<circ> projr) addrs)) items)
      | Some r \<Rightarrow> Inl (projl r), tr)"
proof (induction items arbitrary: ifs)
  case Nil
  show ?case by simp
next
  case (Cons it items)
  obtain i addrs where it: "it = (i, addrs)" by (cases it)
  from Cons.prems it have fresh: "i \<notin> fst ` set ifs" by auto
  have start: "map_of (AList.update i [] ifs) i = Some []"
    by (simp add: update_conv')
  note run = addresses_loop_run [OF start, of os addrs tr]
  have step: "interfaces_loop os (it # items) ifs tr =
      bind_io (addresses_loop os i addrs (AList.update i [] ifs)) (interfaces_loop os items) tr"
    by (simp add: it)
  show ?case
  proof (cases "List.find isl addrs")
    case (Some r)
    with run show ?thesis unfolding step by (simp add: it find_append)
  next
    case None
    let ?ifs = "ifs @ [(i, map (network_address os \<circ> projr) addrs)]"
    from fresh have upd: "AList.update i (map (network_address os \<circ> projr) addrs)
        (AList.update i [] ifs) = ?ifs"
      by (simp add: update_fresh update_at_end)
    from Cons.prems it have "distinct (map fst items)"
      and "fst ` set items \<inter> fst ` set ?ifs = {}"
      by auto
    from Cons.IH [OF this] run None upd show ?thesis
      unfolding step by (simp add: it find_append split: option.splits)
  qed
qed

text \<open>
  Claim C7, as amended. \<^verbatim>\<open>get_network_interfaces\<close> has no handler around the reading of an
  entry. For an enumeration with distinct interface names: when no address entry raises,
  the result is a dictionary with one key for each interface, in the order of the
  enumeration, holding that interface's addresses in order; when some entry raises, the
  exception of the first such entry is the outcome of \<^verbatim>\<open>get_network_interfaces\<close>, nothing
  is skipped, and the cycle fails: \<^verbatim>\<open>collect\<close> raises and \<^verbatim>\<open>read_system_data\<close> returns
  no dictionary of a \<^verbatim>\<open>SystemData\<close>.
\<close>

theorem get_network_interfaces_no_skipping:
  assumes "net_if_addrs os = Inr items" and "distinct (map fst items)"
  shows "fst (get_network_interfaces os tr) =
     (case List.find isl (concat (map snd items)) of
        None \<Rightarrow> Inr (map (\<lambda>(i, addrs). (i, map (network_address os \<circ> projr) addrs)) items)
      | Some r \<Rightarrow> Inl (projl r))
   \<and> (List.find isl (concat (map snd items)) \<noteq> None \<longrightarrow>
        isl (fst (collect os tr')) \<and> (\<forall>s. fst (read_system_data os tr') \<noteq> Inr (asdict s)))"
proof -
  have result: "fst (get_network_interfaces os t) =
     (case List.find isl (concat (map snd items)) of
        None \<Rightarrow> Inr (map (\<lambda>(i, addrs). (i, map (network_address os \<circ> projr) addrs)) items)
      | Some r \<Rightarrow> Inl (projl r))" for t
    using assms interfaces_loop_run [of items "[]" os "t @ [Ev_net_if_addrs]"]
    by (simp add: get_network_interfaces_def split: option.splits)
  have fails: "isl (fst (collect os tr'))"
    and no_snapshot: "fst (read_system_data os tr') \<noteq> Inr (asdict s)"
    if raised: "List.find isl (concat (map snd items)) \<noteq> None" for s
  proof -
    from raised result [of "[]"] have net: "isl (fst (get_network_interfaces os []))"
      by auto
    show cycle: "isl (fst (collect os tr'))"
    proof (rule ccontr)
      assume "\<not> isl (fst (collect os tr'))"
      then obtain s' where "fst (collect os tr') = Inr s'"
        by (cases "fst (collect os tr')") auto
      from collect_succeeds [OF collect_succeeds_fst [OF this]]
      have "fst (get_network_interfaces os []) = Inr (network_interfaces (network s'))"
        by (elim exE conjE)
      with net show False by simp
    qed
    then obtain e t where "collect os tr' = (Inl e, t)"
      by (cases "collect os tr'"; cases "fst (collect os tr')") auto
    then show "fst (read_system_data os tr') \<noteq> Inr (asdict s)"
      by (simp add: read_system_data_run asdict_def)
  qed
  from result [of tr] fails no_snapshot show ?thesis by blast
qed

theorem get_network_interfaces_no_skipping_witness:
  "fst (get_network_interfaces host []) =
     Inr [(''lo'', [\<lparr>address = ''127.0.0.1'', netmask = Some ''255.0.0.0'',
                     family = ''AddressFamily.AF_INET''\<rparr>]),
          (''eth0'', [\<lparr>address = ''10.0.0.7'', netmask = Some ''255.255.255.0'',
                        family = ''AddressFamily.AF_INET''\<rparr>,
                      \<lparr>address = ''00:11:22:33:44:55'', netmask = None,
                        family = ''AddressFamily.AF_PACKET''\<rparr>])]
   \<and> fst (get_network_interfaces host_malformed_interface []) =
     Inl (Exn AttributeError ''object has no attribute address'')
   \<and> isl (fst (collect host_malformed_interface []))"
proof -
  have h: "net_if_addrs host = Inr
      [(''lo'', [Inr \<lparr>nic_family = 2, nic_address = ''127.0.0.1'',
                        nic_netmask = Some ''255.0.0.0''\<rparr>]),
       (''eth0'', [Inr \<lparr>nic_family = 2, nic_address = ''10.0.0.7'',
                          nic_netmask = Some ''255.255.255.0''\<rparr>,
                   Inr \<lparr>nic_family = 17, nic_address = ''00:11:22:33:44:55'',
                          nic_netmask = None\<rparr>])]"
    by (simp add: host_def)
  have m: "net_if_addrs host_malformed_interface = Inr
      [(''lo'', [Inr \<lparr>nic_family = 2, nic_address = ''127.0.0.1'',
                        nic_netmask = Some ''255.0.0.0''\<rparr>]),
       (''eth0'', [Inl (Exn AttributeError ''object has no attribute address'')]),
       (''wlan0'', [Inr \<lparr>nic_family = 2, nic_address = ''192.168.1.5'',
                           nic_netmask = Some ''255.255.255.0''\<rparr>])]"
    by (simp add: host_malformed_interface_def)
  have "fst (get_network_interfaces host []) =
     Inr [(''lo'', [\<lparr>address = ''127.0.0.1'', netmask = Some ''255.0.0.0'',
                     family = ''AddressFamily.AF_INET''\<rparr>]),
          (''eth0'', [\<lparr>address = ''10.0.0.7'', netmask = Some ''255.255.255.0'',
                        family = ''AddressFamily.AF_INET''\<rparr>,
                      \<lparr>address = ''00:11:22:33:44:55'', netmask = None,
                        family = ''AddressFamily.AF_PACKET''\<rparr>])]"
    using get_network_interfaces_no_skipping [OF h, of "[]" "[]"]
    by (simp add: network_address_def host_def)
  moreover have "fst (get_network_interfaces host_malformed_interface []) =
     Inl (Exn AttributeError ''object has no attribute address'')
     \<and> isl (fst (collect host_malformed_interface []))"
    using get_network_interfaces_no_skipping [OF m, of "[]" "[]"]
    by simp
  ultimately show ?thesis by simp
qed

text \<open>
  Claim C7 as stated fails: on a host whose second interface has an address entry that
  raises, \<^verbatim>\<open>get_network_interfaces\<close> returns no dictionary covering the first and the third
  interface but raises, and the whole cycle ends in the error dictionary.
\<close>

theorem get_network_interfaces_aborts_counterexample:
  "fst (get_network_interfaces host_malformed_interface []) =
     Inl (Exn AttributeError ''object has no attribute address'')
   \<and> fst (read_system_data host_malformed_interface []) =
     Inr [(''error'', PStr ''Failed to collect system data: object has no attribute address'')]"
  by code_simp

section \<open>Where the code departs from the specification\<close>

text \<open>
  Claim C4 (the MAC address is the six bytes of the node identifier, most significant
  first). The code shifts the identifier by 0, 2, .., 10 bits, not by 0, 8, .., 40: for
  the node identifier \<^verbatim>\<open>0x001122334455\<close> it yields \<^verbatim>\<open>d1:44:11:45:15:55\<close>, where the six
  bytes in big-endian order are \<^verbatim>\<open>00:11:22:33:44:55\<close>.
\<close>

theorem mac_address_shifts_by_two_bits:
  "getnode host = Inr 0x001122334455
   \<and> fst (mac_address_of host []) = Inr ''d1:44:11:45:15:55''
   \<and> mac_big_endian 0x001122334455 = ''00:11:22:33:44:55''"
  by code_simp

text \<open>
  Claim C8 (a process without a user name has the empty string as \<^verbatim>\<open>username\<close>). The
  code stores the value of \<^verbatim>\<open>proc.info['username']\<close> as it is: for the process 7 of
  \<open>host\<close>, whose user name is \<^verbatim>\<open>None\<close>, the entry of \<^verbatim>\<open>get_running_processes\<close> has the
  user name \<^verbatim>\<open>None\<close>, and so has the dictionary made of it.
\<close>

theorem get_running_processes_username_None:
  "info_username proc_sshd = None
   \<and> fst (get_running_processes host []) =
       Inr [\<lparr>pid = 1, name = Some ''init'', username = Some ''root'', memory_percent = Some 0.5\<rparr>,
            \<lparr>pid = 7, name = Some ''sshd'', username = None, memory_percent = Some 0.25\<rparr>]
   \<and> map val_of_ProcessInfo (projr (fst (get_running_processes host []))) ! 1 =
       PDict [(''pid'', PInt 7), (''name'', PStr ''sshd''), (''username'', PNone),
              (''memory_percent'', PFloat 0.25)]"
  by code_simp

text \<open>
  Claim C1 (a manual refresh runs a collection although auto-refresh is disabled). After
  one toggle from the initial state auto-refresh is disabled; \<^verbatim>\<open>action_refresh\<close> then
  returns the state as it was and makes no call at all, so \<^verbatim>\<open>data\<close> stays \<^verbatim>\<open>None\<close>, whereas
  \<^verbatim>\<open>refresh_data\<close> with auto-refresh enabled stores a complete dictionary.
\<close>

theorem action_refresh_disabled_is_noop:
  "auto_refresh (action_toggle_refresh initial_app) = False
   \<and> action_refresh host (action_toggle_refresh initial_app) [] =
       ((None, action_toggle_refresh initial_app), [])
   \<and> data (snd (fst (action_refresh host (action_toggle_refresh initial_app) []))) = None
   \<and> map_option (map fst) (data (snd (fst (refresh_data host initial_app [])))) =
       Some [''timestamp'', ''platform'', ''network'', ''hardware'', ''process'']"
  by code_simp

text \<open>The same on every host and in every state: with auto-refresh disabled nothing happens.\<close>

lemma refresh_data_gated: "\<not> auto_refresh a \<Longrightarrow> refresh_data os a tr = ((None, a), tr)"
  by (simp add: refresh_data_def)

lemma action_refresh_gated: "\<not> auto_refresh a \<Longrightarrow> action_refresh os a tr = ((None, a), tr)"
  by (simp add: action_refresh_def refresh_data_gated)

end
